theory Spec2Isabelle
  imports Complex_Main "HOL-Library.Sublist"
begin

section \<open>JavaScript values\<close>

text \<open>
  The data the validator walks is what \<open>JSON.parse\<close> or the XML normaliser hands to it,
  together with \<open>undefined\<close>. An object is the list of its own entries in key order, each
  key once; a number is the finite value it denotes (JSON has neither NaN nor an
  infinity, and \<open>0\<close> and \<open>-0\<close> print and compare alike in every place the validator
  looks at them). A function is a value too: the members a plain object inherits from
  \<open>Object.prototype\<close> are functions, and \<open>in\<close> and \<open>obj[key]\<close> see them. A function is
  given by its name.
\<close>

datatype jsval =
    JUndefined
  | JNull
  | JBool bool
  | JNum rat
  | JStr string
  | JArr "jsval list"
  | JObj "(string \<times> jsval) list"
  | JFunction string

text \<open>What a \<open>throw\<close> carries: only the kind of the exception matters here.\<close>

datatype js_error = TypeError | SyntaxError | XmlError

text \<open>
  The built-ins of the runtime that the code calls and the repository does not define
  are parameters of the model: \<open>isNaN(parseFloat(s))\<close> and \<open>isFinite(s)\<close> on a string,
  \<open>new RegExp(p)\<close> (which throws a SyntaxError on a pattern that does not compile, and
  otherwise gives the \<open>test\<close> function of a regular expression without flags),
  the printing of a number in a template literal, and the \<open>message\<close> of an exception.
\<close>

record js_env =
  parseFloat_isNaN :: "string \<Rightarrow> bool"
  isFinite_string :: "string \<Rightarrow> bool"
  RegExp_test :: "string \<Rightarrow> (string \<Rightarrow> bool) option"
  Number_toString :: "rat \<Rightarrow> string"
  error_message :: "js_error \<Rightarrow> string"

text \<open>\<open>typeof data\<close>, and \<open>Array.isArray(data)\<close>.\<close>

fun js_typeof :: "jsval \<Rightarrow> string" where
  "js_typeof JUndefined = ''undefined''"
| "js_typeof JNull = ''object''"
| "js_typeof (JBool b) = ''boolean''"
| "js_typeof (JNum r) = ''number''"
| "js_typeof (JStr s) = ''string''"
| "js_typeof (JArr xs) = ''object''"
| "js_typeof (JObj kvs) = ''object''"
| "js_typeof (JFunction name) = ''function''"

fun isArray :: "jsval \<Rightarrow> bool" where
  "isArray (JArr xs) = True"
| "isArray v = False"

text \<open>Truthiness, as \<open>!x\<close>, \<open>x && y\<close> and \<open>if (x)\<close> read a value.\<close>

fun truthy :: "jsval \<Rightarrow> bool" where
  "truthy JUndefined = False"
| "truthy JNull = False"
| "truthy (JBool b) = b"
| "truthy (JNum r) = (r \<noteq> 0)"
| "truthy (JStr s) = (s \<noteq> [])"
| "truthy (JArr xs) = True"
| "truthy (JObj kvs) = True"
| "truthy (JFunction name) = True"

text \<open>
  The own members of \<open>Object.prototype\<close>, as reading them from it gives them: eleven
  built-in functions, and \<open>__proto__\<close>, which reads as \<open>null\<close> there.
\<close>

definition Object_prototype :: "(string \<times> jsval) list" where
  "Object_prototype =
     [(''constructor'', JFunction ''Object''),
      (''__defineGetter__'', JFunction ''__defineGetter__''),
      (''__defineSetter__'', JFunction ''__defineSetter__''),
      (''hasOwnProperty'', JFunction ''hasOwnProperty''),
      (''__lookupGetter__'', JFunction ''__lookupGetter__''),
      (''__lookupSetter__'', JFunction ''__lookupSetter__''),
      (''isPrototypeOf'', JFunction ''isPrototypeOf''),
      (''propertyIsEnumerable'', JFunction ''propertyIsEnumerable''),
      (''toString'', JFunction ''toString''),
      (''valueOf'', JFunction ''valueOf''),
      (''__proto__'', JNull),
      (''toLocaleString'', JFunction ''toLocaleString'')]"

text \<open>
  What a plain object inherits under a name: the member of \<open>Object.prototype\<close>, where
  \<open>__proto__\<close> reads as \<open>Object.prototype\<close> itself.
\<close>

definition inherited :: "string \<Rightarrow> jsval option" where
  "inherited k =
     (if k = ''__proto__'' then Some (JObj Object_prototype) else map_of Object_prototype k)"

text \<open>
  \<open>key in obj\<close> and \<open>obj[key]\<close>. On an object both look at its own entries and then
  at what it inherits. Both throw a TypeError on \<open>null\<close> and \<open>undefined\<close>; \<open>in\<close> throws
  on every primitive. The validator applies them to objects and \<open>null\<close> only; the
  handler reads \<open>ItemList\<close> and \<open>Item\<close>, which no string, number, boolean, function or
  array has.
\<close>

fun has_property :: "string \<Rightarrow> jsval \<Rightarrow> js_error + bool" where
  "has_property k (JObj kvs) = Inr (k \<in> fst ` set kvs \<or> inherited k \<noteq> None)"
| "has_property k (JArr xs) = Inr (inherited k \<noteq> None)"
| "has_property k (JFunction name) = Inr (inherited k \<noteq> None)"
| "has_property k v = Inl TypeError"

fun get_property :: "jsval \<Rightarrow> string \<Rightarrow> js_error + jsval" where
  "get_property (JObj kvs) k =
     Inr (case map_of kvs k of
            Some v \<Rightarrow> v
          | None \<Rightarrow> (case inherited k of Some v \<Rightarrow> v | None \<Rightarrow> JUndefined))"
| "get_property JNull k = Inl TypeError"
| "get_property JUndefined k = Inl TypeError"
| "get_property v k = Inr JUndefined"

text \<open>\<open>obj[key] = v\<close> on an object: the entry is replaced in place, or added last.\<close>

fun set_entry :: "(string \<times> jsval) list \<Rightarrow> string \<Rightarrow> jsval \<Rightarrow> (string \<times> jsval) list" where
  "set_entry [] k v = [(k, v)]"
| "set_entry ((k', v') # kvs) k v =
     (if k' = k then (k, v) # kvs else (k', v') # set_entry kvs k v)"

subsection \<open>Strings\<close>

definition apostrophe :: string where
  "apostrophe = [CHR 0x27]"

definition newline :: string where
  "newline = [CHR 0x0A]"

text \<open>A non-negative integer in a template literal (\<open>data.length\<close>, an index, a bound).\<close>

fun show_nat :: "nat \<Rightarrow> string" where
  "show_nat n =
     (if n < 10 then [''0123456789'' ! n]
      else show_nat (n div 10) @ [''0123456789'' ! (n mod 10)])"

declare show_nat.simps [simp del]

text \<open>\<open>xs.join(sep)\<close> on strings.\<close>

fun join_strings :: "string \<Rightarrow> string list \<Rightarrow> string" where
  "join_strings sep [] = []"
| "join_strings sep [x] = x"
| "join_strings sep (x # y # ys) = x @ sep @ join_strings sep (y # ys)"

text \<open>
  \<open>String(v)\<close>, the conversion a template literal applies. An array prints its elements
  joined by commas, with \<open>null\<close> and \<open>undefined\<close> as the empty string, as \<open>join\<close> does.
\<close>

fun to_string :: "js_env \<Rightarrow> jsval \<Rightarrow> string" where
  "to_string env JUndefined = ''undefined''"
| "to_string env JNull = ''null''"
| "to_string env (JBool b) = (if b then ''true'' else ''false'')"
| "to_string env (JNum r) = Number_toString env r"
| "to_string env (JStr s) = s"
| "to_string env (JArr xs) =
     join_strings '',''
       (map (\<lambda>x. if x = JUndefined \<or> x = JNull then [] else to_string env x) xs)"
| "to_string env (JObj kvs) = ''[object Object]''"
| "to_string env (JFunction name) = ''function '' @ name @ ''() { [native code] }''"

definition array_join :: "js_env \<Rightarrow> string \<Rightarrow> jsval list \<Rightarrow> string" where
  "array_join env sep xs =
     join_strings sep
       (map (\<lambda>x. if x = JUndefined \<or> x = JNull then [] else to_string env x) xs)"

text \<open>
  \<open>xs.includes(v)\<close> compares with SameValueZero: by value on primitives and \<open>null\<close>, by
  identity on objects, arrays and functions. The data is never the schema's own object;
  a built-in function is the same function wherever it is read.
\<close>

fun array_includes :: "jsval list \<Rightarrow> jsval \<Rightarrow> bool" where
  "array_includes xs (JArr ys) = False"
| "array_includes xs (JObj kvs) = False"
| "array_includes xs v = (v \<in> set xs)"

section \<open>Schemas\<close>

text \<open>
  A schema node is a plain object; each of its keys may be absent. \<open>properties\<close> holds
  the entries of the object in the order they are declared in, each key once.
  \<open>minItems\<close> and \<open>maxItems\<close> are counts.
\<close>

datatype schema = Schema
  (schema_type: "string option")
  (schema_enum: "jsval list option")
  (schema_pattern: "string option")
  (schema_required: "string list option")
  (schema_properties: "(string \<times> schema) list option")
  (schema_minItems: "nat option")
  (schema_maxItems: "nat option")
  (schema_items: "schema option")

text \<open>The node \<open>{ type: t }\<close>, with \<open>enum\<close> or \<open>pattern\<close>, and the object and array nodes.\<close>

definition typed :: "string \<Rightarrow> schema" where
  "typed t = Schema (Some t) None None None None None None None"

definition typed_enum :: "string \<Rightarrow> string list \<Rightarrow> schema" where
  "typed_enum t vs = Schema (Some t) (Some (map JStr vs)) None None None None None None"

definition typed_pattern :: "string \<Rightarrow> string \<Rightarrow> schema" where
  "typed_pattern t p = Schema (Some t) None (Some p) None None None None None"

definition object_schema :: "string list \<Rightarrow> (string \<times> schema) list \<Rightarrow> schema" where
  "object_schema req props = Schema (Some ''object'') None None (Some req) (Some props) None None None"

definition array_schema :: "nat \<Rightarrow> nat \<Rightarrow> schema \<Rightarrow> schema" where
  "array_schema mn mx its = Schema (Some ''array'') None None None None (Some mn) (Some mx) (Some its)"

subsection \<open>The order of \<open>Object.keys\<close>\<close>

text \<open>
  \<open>Object.keys\<close> lists the keys that are array indices first, in ascending order, and
  then the other keys in the order they were created in. An array index is the
  decimal numeral, without sign or leading zero, of an integer below \<open>2^32 - 1\<close>.
\<close>

definition digit_value :: "char \<Rightarrow> int" where
  "digit_value c = int (length (takeWhile (\<lambda>d. d \<noteq> c) ''0123456789''))"

definition numeral_value :: "string \<Rightarrow> int" where
  "numeral_value k = foldl (\<lambda>n c. 10 * n + digit_value c) 0 k"

definition is_array_index :: "string \<Rightarrow> bool" where
  "is_array_index k =
     (k \<noteq> [] \<and> list_all (\<lambda>c. c \<in> set ''0123456789'') k \<and>
      (k = ''0'' \<or> hd k \<noteq> CHR ''0'') \<and> numeral_value k \<le> 4294967294)"

text \<open>An entry put into its place among entries that are in ascending order of their keys.\<close>

fun insert_index :: "string \<times> 'a \<Rightarrow> (string \<times> 'a) list \<Rightarrow> (string \<times> 'a) list" where
  "insert_index entry [] = [entry]"
| "insert_index entry (e # es) =
     (if numeral_value (fst entry) \<le> numeral_value (fst e) then entry # e # es
      else e # insert_index entry es)"

text \<open>The entries of an object in the order \<open>Object.keys\<close> lists their keys.\<close>

definition Object_keys_order :: "(string \<times> 'a) list \<Rightarrow> (string \<times> 'a) list" where
  "Object_keys_order entries =
     foldr insert_index (filter (\<lambda>entry. is_array_index (fst entry)) entries) [] @
     filter (\<lambda>entry. \<not> is_array_index (fst entry)) entries"

section \<open>The schema validator\<close>

text \<open>
  A \<open>forEach\<close> whose callback pushes onto \<open>errors\<close>: the lists are concatenated in
  order, and the first exception thrown leaves the loop and the function.
\<close>

fun concat_results :: "(js_error + 'a list) list \<Rightarrow> js_error + 'a list" where
  "concat_results [] = Inr []"
| "concat_results (Inl e # rs) = Inl e"
| "concat_results (Inr xs # rs) =
     (case concat_results rs of Inl e \<Rightarrow> Inl e | Inr ys \<Rightarrow> Inr (xs @ ys))"

text \<open>\<open>let type = Array.isArray(data) ? 'array' : typeof data\<close>\<close>

definition type_of :: "jsval \<Rightarrow> string" where
  "type_of data = (if isArray data then ''array'' else js_typeof data)"

text \<open>\<open>!isNaN(parseFloat(data)) && isFinite(data)\<close>, evaluated on strings only.\<close>

fun numeric_string :: "js_env \<Rightarrow> jsval \<Rightarrow> bool" where
  "numeric_string env (JStr s) = (\<not> parseFloat_isNaN env s \<and> isFinite_string env s)"
| "numeric_string env v = False"

text \<open>
  Step 1 of \<open>validateSchema\<close>, the type check: the list returned at once on a mismatch,
  or \<open>None\<close> when the function goes on. A \<open>type\<close> that is the empty string is falsy.
\<close>

definition check_type :: "js_env \<Rightarrow> jsval \<Rightarrow> string option \<Rightarrow> string \<Rightarrow> string list option" where
  "check_type env data ty path =
     (case ty of
        None \<Rightarrow> None
      | Some t \<Rightarrow>
          if t = ''number'' \<and> type_of data = ''string'' \<and> numeric_string env data then None
          else if t \<noteq> [] \<and> type_of data \<noteq> t then
            (if t = ''number'' \<and> js_typeof data = ''number'' then None
             else Some [path @ '': Expected type '' @ t @ '' but found '' @ type_of data])
          else None)"

text \<open>
  The block for a value that is neither object nor array: \<open>enum\<close>, then \<open>pattern\<close> on a
  string (an empty pattern is falsy).
\<close>

definition check_values ::
  "js_env \<Rightarrow> jsval \<Rightarrow> jsval list option \<Rightarrow> string option \<Rightarrow> string \<Rightarrow> js_error + string list" where
  "check_values env data en pat path =
     (let errors =
        (case en of
           None \<Rightarrow> []
         | Some vs \<Rightarrow>
             if \<not> array_includes vs data
             then [path @ '': Value '' @ apostrophe @ to_string env data @ apostrophe @
                   '' is not in allowed enum: '' @ array_join env '', '' vs]
             else [])
      in case pat of
           None \<Rightarrow> Inr errors
         | Some p \<Rightarrow>
             if p \<noteq> [] \<and> js_typeof data = ''string'' then
               (case RegExp_test env p of
                  None \<Rightarrow> Inl SyntaxError
                | Some test \<Rightarrow>
                    if \<not> test (to_string env data)
                    then Inr (errors @ [path @ '': Value '' @ apostrophe @ to_string env data @
                              apostrophe @ '' does not match pattern '' @ p])
                    else Inr errors)
             else Inr errors)"

text \<open>\<open>schema.required.forEach(...)\<close>, when \<open>schema.required\<close> is there.\<close>

definition check_required :: "jsval \<Rightarrow> string list option \<Rightarrow> string \<Rightarrow> js_error + string list" where
  "check_required data req path =
     (case req of
        None \<Rightarrow> Inr []
      | Some rs \<Rightarrow>
          concat_results
            (map (\<lambda>reqField.
                    case has_property reqField data of
                      Inl e \<Rightarrow> Inl e
                    | Inr present \<Rightarrow>
                        Inr (if \<not> present
                             then [path @ '': Missing required field '' @ apostrophe @ reqField @
                                   apostrophe]
                             else []))
                 rs))"

text \<open>The elements of an array, for \<open>data.length\<close> and \<open>data.forEach\<close>.\<close>

fun elements :: "jsval \<Rightarrow> jsval list" where
  "elements (JArr xs) = xs"
| "elements v = []"

text \<open>The two bound checks of an array; a bound of \<open>0\<close> is falsy.\<close>

definition check_bounds :: "nat \<Rightarrow> nat option \<Rightarrow> nat option \<Rightarrow> string \<Rightarrow> string list" where
  "check_bounds n mn mx path =
     (case mn of
        None \<Rightarrow> []
      | Some m \<Rightarrow>
          if m \<noteq> 0 \<and> n < m
          then [path @ '': Array has '' @ show_nat n @ '' items, minimum is '' @ show_nat m]
          else []) @
     (case mx of
        None \<Rightarrow> []
      | Some m \<Rightarrow>
          if m \<noteq> 0 \<and> n > m
          then [path @ '': Array has '' @ show_nat n @ '' items, maximum is '' @ show_nat m]
          else [])"

text \<open>
  \<open>validateSchema(data, schema, path)\<close>: \<open>Inr\<close> the list it returns, \<open>Inl\<close> the exception
  it throws.
\<close>

function validateSchema :: "js_env \<Rightarrow> jsval \<Rightarrow> schema \<Rightarrow> string \<Rightarrow> js_error + string list" where
  "validateSchema env data (Schema ty en pat req props mn mx its) path =
     (case check_type env data ty path of
        Some mismatch \<Rightarrow> Inr mismatch
      | None \<Rightarrow>
          if type_of data \<noteq> ''object'' \<and> type_of data \<noteq> ''array''
          then check_values env data en pat path
          else
            (case
               (case props of
                  None \<Rightarrow> Inr []
                | Some ps \<Rightarrow>
                    if type_of data = ''object'' then
                      (case check_required data req path of
                         Inl e \<Rightarrow> Inl e
                       | Inr missing \<Rightarrow>
                           (case concat_results
                                   (map (\<lambda>(propKey, sub).
                                           case get_property data propKey of
                                             Inl e \<Rightarrow> Inl e
                                           | Inr v \<Rightarrow>
                                               if v \<noteq> JUndefined
                                               then validateSchema env v sub (path @ ''.'' @ propKey)
                                               else Inr [])
                                        (Object_keys_order ps)) of
                              Inl e \<Rightarrow> Inl e
                            | Inr propErrors \<Rightarrow> Inr (missing @ propErrors)))
                    else Inr [])
             of
               Inl e \<Rightarrow> Inl e
             | Inr errors \<Rightarrow>
                 if type_of data = ''array'' then
                   (case
                      (case its of
                         None \<Rightarrow> Inr []
                       | Some item_schema \<Rightarrow>
                           concat_results
                             (map (\<lambda>(index, item).
                                     validateSchema env item item_schema
                                       (path @ ''['' @ show_nat index @ '']''))
                                  (enumerate 0 (elements data))))
                    of
                      Inl e \<Rightarrow> Inl e
                    | Inr itemErrors \<Rightarrow>
                        Inr (errors @ check_bounds (length (elements data)) mn mx path @ itemErrors))
                 else Inr errors))"
  by pat_completeness auto

termination
proof -
  have entry: "size sub < Suc (size_list (size_prod (\<lambda>x. 0) size) ps)"
    if "(k, sub) \<in> set ps" for k :: string and sub :: schema and ps
    using that by (induction ps) auto
  have insert: "set (insert_index e es) = insert e (set es)"
    for e :: "string \<times> schema" and es
    by (induction es) auto
  have sorted: "set (foldr insert_index es []) = set es" for es :: "(string \<times> schema) list"
    by (induction es) (simp_all add: insert)
  show ?thesis
    by (relation "measure (\<lambda>(env, data, schema, path). size schema)")
       (auto simp: Object_keys_order_def sorted dest: entry)
qed

declare validateSchema.simps [simp del]

subsection \<open>The invoice schema\<close>

definition Item_schema :: schema where
  "Item_schema =
     object_schema
       [''SlNo'', ''PrdDesc'', ''HsnCd'', ''Qty'', ''Unit'', ''UnitPrice'', ''TotAmt'', ''AssAmt'',
        ''GstRt'', ''IgstAmt'', ''CgstAmt'', ''SgstAmt'', ''TotItemVal'']
       [(''SlNo'', typed ''string''),
        (''PrdDesc'', typed ''string''),
        (''HsnCd'', typed ''string''),
        (''Qty'', typed ''number''),
        (''Unit'', typed ''string''),
        (''UnitPrice'', typed ''number''),
        (''TotAmt'', typed ''number''),
        (''AssAmt'', typed ''number''),
        (''GstRt'', typed ''number''),
        (''IgstAmt'', typed ''number''),
        (''CgstAmt'', typed ''number''),
        (''SgstAmt'', typed ''number''),
        (''TotItemVal'', typed ''number'')]"

definition ItemList_schema :: schema where
  "ItemList_schema = array_schema 1 1000 Item_schema"

definition INVOICE_SCHEMA :: schema where
  "INVOICE_SCHEMA =
     object_schema
       [''Version'', ''TranDtls'', ''DocDtls'', ''SellerDtls'', ''BuyerDtls'', ''ItemList'', ''ValDtls'']
       [(''Version'', typed_enum ''string'' [''1.1'']),
        (''TranDtls'',
           object_schema [''SupTyp'', ''RegRev'']
             [(''SupTyp'',
                 typed_enum ''string'' [''B2B'', ''SEZWP'', ''SEZWOP'', ''EXPWP'', ''EXPWOP'', ''DEXP'']),
              (''RegRev'', typed_enum ''string'' [''Y'', ''N''])]),
        (''DocDtls'',
           object_schema [''Typ'', ''No'', ''Dt'']
             [(''Typ'', typed_enum ''string'' [''INV'', ''CRN'', ''DBN'']),
              (''No'', typed ''string''),
              (''Dt'', typed ''string'')]),
        (''SellerDtls'',
           object_schema [''Gstin'', ''LglNm'', ''Stcd'']
             [(''Gstin'',
                 typed_pattern ''string''
                   ''^[0-9]{2}[A-Z]{5}[0-9]{4}[A-Z]{1}[1-9A-Z]{1}Z[0-9A-Z]{1}$''),
              (''LglNm'', typed ''string''),
              (''Stcd'', typed ''string'')]),
        (''BuyerDtls'',
           object_schema [''Gstin'', ''LglNm'', ''Stcd'', ''Pos'']
             [(''Gstin'', typed ''string''),
              (''LglNm'', typed ''string''),
              (''Stcd'', typed ''string''),
              (''Pos'', typed ''string'')]),
        (''ItemList'', ItemList_schema),
        (''ValDtls'',
           object_schema [''AssVal'', ''CgstVal'', ''SgstVal'', ''IgstVal'', ''TotInvVal'']
             [(''AssVal'', typed ''number''),
              (''CgstVal'', typed ''number''),
              (''SgstVal'', typed ''number''),
              (''IgstVal'', typed ''number''),
              (''TotInvVal'', typed ''number'')])]"

section \<open>The XML validation endpoint\<close>

text \<open>
  The handler of \<open>POST /validate\<close>. \<open>convert.xml2js\<close> is the library's: a parameter,
  giving the entries of the compact object it builds, or the exception it throws on
  text that is not XML.
\<close>

record response =
  status :: nat
  content_type :: string
  body :: string

text \<open>The helper \<open>normalize\<close> of the handler.\<close>

fun normalize :: "jsval \<Rightarrow> jsval" where
  "normalize (JObj kvs) =
     (case map_of kvs ''_text'' of
        None \<Rightarrow> JObj (map (\<lambda>(key, v). (key, normalize v)) kvs)
      | Some t \<Rightarrow>
          if t \<noteq> JUndefined then t
          else JObj (map (\<lambda>(key, v). (key, normalize v)) kvs))"
| "normalize (JArr xs) = JArr (map normalize xs)"
| "normalize v = v"

text \<open>
  \<open>cleanData.ItemList = v\<close>. The assignment is reached only after a truthy
  \<open>cleanData.ItemList\<close> was read, so \<open>cleanData\<close> is an object there.
\<close>

fun set_property :: "jsval \<Rightarrow> string \<Rightarrow> jsval \<Rightarrow> jsval" where
  "set_property (JObj kvs) k v = JObj (set_entry kvs k v)"
| "set_property d k v = d"

text \<open>
  The step that makes \<open>ItemList\<close> an array:
  \<open>if (cleanData.ItemList && cleanData.ItemList.Item) { ... }\<close>.
\<close>

definition wrap_ItemList :: "jsval \<Rightarrow> js_error + jsval" where
  "wrap_ItemList cleanData =
     (case get_property cleanData ''ItemList'' of
        Inl e \<Rightarrow> Inl e
      | Inr itemList \<Rightarrow>
          if \<not> truthy itemList then Inr cleanData
          else
            (case get_property itemList ''Item'' of
               Inl e \<Rightarrow> Inl e
             | Inr item \<Rightarrow>
                 if \<not> truthy item then Inr cleanData
                 else if isArray item then Inr (set_property cleanData ''ItemList'' item)
                 else Inr (set_property cleanData ''ItemList'' (JArr [item]))))"

text \<open>A line of a template literal: its indentation, its text, the line break.\<close>

definition text_line :: "nat \<Rightarrow> string \<Rightarrow> string" where
  "text_line n s = replicate n CHR '' '' @ s @ newline"

definition error_body :: "nat \<Rightarrow> string \<Rightarrow> string" where
  "error_body n msg =
     newline @
     text_line (n + 4) ''<ValidationResponse>'' @
     text_line (n + 8) ''<Valid>false</Valid>'' @
     text_line (n + 8) ''<Errors>'' @
     text_line (n + 12) (''<Error>'' @ msg @ ''</Error>'') @
     text_line (n + 8) ''</Errors>'' @
     text_line (n + 4) ''</ValidationResponse>'' @
     replicate n CHR '' ''"

definition failed_body :: "string list \<Rightarrow> string" where
  "failed_body errors =
     (let errorTags = concat (map (\<lambda>err. ''<Error>'' @ err @ ''</Error>'') errors) in
      newline @
      text_line 17 ''<ValidationResponse>'' @
      text_line 20 ''<Valid>false</Valid>'' @
      text_line 20 ''<Message>Validation Failed</Message>'' @
      text_line 20 ''<Errors>'' @
      text_line 24 errorTags @
      text_line 17 ''</ValidationResponse>'' @
      replicate 13 CHR '' '')"

definition valid_body :: string where
  "valid_body =
     newline @
     text_line 17 ''<ValidationResponse>'' @
     text_line 20 ''<Valid>true</Valid>'' @
     text_line 20 ''<Message>XML is valid against the Invoice Schema</Message>'' @
     text_line 17 ''</ValidationResponse>'' @
     replicate 13 CHR '' ''"

text \<open>\<open>res.send(b)\<close> answers with status 200 unless \<open>res.status(400)\<close> came first.\<close>

definition send :: "nat \<Rightarrow> string \<Rightarrow> response" where
  "send code b = \<lparr>status = code, content_type = ''application/xml'', body = b\<rparr>"

text \<open>The \<open>try\<close> block after the check of the payload, on the string \<open>xml\<close>.\<close>

definition validate_payload ::
  "js_env \<Rightarrow> (string \<Rightarrow> js_error + (string \<times> jsval) list) \<Rightarrow> string \<Rightarrow> js_error + response" where
  "validate_payload env xml2js xml =
     (case xml2js xml of
        Inl e \<Rightarrow> Inl e
      | Inr result \<Rightarrow>
          (case get_property (JObj result) ''Invoice'' of
             Inl e \<Rightarrow> Inl e
           | Inr invoice \<Rightarrow>
               if \<not> truthy invoice
               then Inr (send 400 (error_body 12 ''XML root must be &lt;Invoice&gt;''))
               else
                 (case wrap_ItemList (normalize invoice) of
                    Inl e \<Rightarrow> Inl e
                  | Inr cleanData \<Rightarrow>
                      (case validateSchema env cleanData INVOICE_SCHEMA ''root'' of
                         Inl e \<Rightarrow> Inl e
                       | Inr errors \<Rightarrow>
                           if length errors > 0 then Inr (send 200 (failed_body errors))
                           else Inr (send 200 valid_body)))))"

text \<open>The handler: \<open>xml\<close> is \<open>req.body\<close>, a string when the body parser read one.\<close>

definition post_validate ::
  "js_env \<Rightarrow> (string \<Rightarrow> js_error + (string \<times> jsval) list) \<Rightarrow> jsval \<Rightarrow> response" where
  "post_validate env xml2js xml =
     (if \<not> truthy xml \<or> js_typeof xml \<noteq> ''string''
      then send 400 (error_body 12 ''Empty or invalid XML payload'')
      else
        (case validate_payload env xml2js (to_string env xml) of
           Inr res \<Rightarrow> res
         | Inl error \<Rightarrow>
             send 400 (error_body 8 (''Invalid XML Format: '' @ error_message env error))))"

section \<open>Notions the properties are stated with\<close>

text \<open>
  The visit to one declared property and to one element, as the two loops of
  \<open>validateSchema\<close> make it.
\<close>

definition visit_property ::
  "js_env \<Rightarrow> jsval \<Rightarrow> string \<Rightarrow> string \<times> schema \<Rightarrow> js_error + string list" where
  "visit_property env data path =
     (\<lambda>(propKey, sub).
        case get_property data propKey of
          Inl e \<Rightarrow> Inl e
        | Inr v \<Rightarrow>
            if v \<noteq> JUndefined then validateSchema env v sub (path @ ''.'' @ propKey) else Inr [])"

definition visit_item ::
  "js_env \<Rightarrow> schema \<Rightarrow> string \<Rightarrow> nat \<times> jsval \<Rightarrow> js_error + string list" where
  "visit_item env item_schema path =
     (\<lambda>(index, item). validateSchema env item item_schema (path @ ''['' @ show_nat index @ '']''))"

text \<open>The names a schema node declares: the keys of \<open>properties\<close> and the \<open>required\<close> list.\<close>

definition declared_names :: "schema \<Rightarrow> string set" where
  "declared_names schema =
     (case schema_properties schema of None \<Rightarrow> {} | Some ps \<Rightarrow> fst ` set ps) \<union>
     (case schema_required schema of None \<Rightarrow> {} | Some rs \<Rightarrow> set rs)"

text \<open>
  The nodes a call of \<open>validateSchema\<close> visits, each with the path it is visited under:
  the node of the call, and the nodes visited from a property that is declared and
  defined, or from an element, of a node whose type check passed.
\<close>

inductive visits :: "js_env \<Rightarrow> jsval \<Rightarrow> schema \<Rightarrow> string \<Rightarrow> jsval \<Rightarrow> schema \<Rightarrow> string \<Rightarrow> bool"
  for env :: js_env where
  here: "visits env data schema path data schema path"
| property:
    "check_type env (JObj kvs) (schema_type schema) path = None \<Longrightarrow>
     schema_properties schema = Some ps \<Longrightarrow> (propKey, sub) \<in> set ps \<Longrightarrow>
     get_property (JObj kvs) propKey = Inr v \<Longrightarrow> v \<noteq> JUndefined \<Longrightarrow>
     visits env v sub (path @ ''.'' @ propKey) d s p \<Longrightarrow>
     visits env (JObj kvs) schema path d s p"
| item:
    "check_type env (JArr xs) (schema_type schema) path = None \<Longrightarrow>
     schema_items schema = Some item_schema \<Longrightarrow> index < length xs \<Longrightarrow>
     visits env (xs ! index) item_schema (path @ ''['' @ show_nat index @ '']'') d s p \<Longrightarrow>
     visits env (JArr xs) schema path d s p"






text \<open>Data without \<open>null\<close>, at any depth.\<close>

fun null_free :: "jsval \<Rightarrow> bool" where
  "null_free JNull = False"
| "null_free (JArr xs) = (\<forall>x \<in> set xs. null_free x)"
| "null_free (JObj kvs) = (\<forall>entry \<in> set kvs. null_free (snd entry))"
| "null_free v = True"

text \<open>
  Schema trees in which the validator checks what is declared: no \<open>type\<close> is the empty
  string (a falsy \<open>type\<close> is skipped), \<open>required\<close> comes with \<open>properties\<close> (the
  validator looks at \<open>required\<close> only inside its check of \<open>properties\<close>), no \<open>maxItems\<close>
  is \<open>0\<close> (a bound of \<open>0\<close> is falsy and skipped), and no name in \<open>required\<close> or
  \<open>properties\<close> is a member of \<open>Object.prototype\<close> (every object has those).
\<close>

fun plain_schema :: "schema \<Rightarrow> bool" where
  "plain_schema (Schema ty en pat req props mn mx its) =
     (ty \<noteq> Some [] \<and> (req \<noteq> None \<longrightarrow> props \<noteq> None) \<and> mx \<noteq> Some 0 \<and>
      (\<forall>r \<in> set (case req of None \<Rightarrow> [] | Some rs \<Rightarrow> rs). inherited r = None) \<and>
      (\<forall>entry \<in> set (case props of None \<Rightarrow> [] | Some ps \<Rightarrow> ps).
         inherited (fst entry) = None \<and> plain_schema (snd entry)) \<and>
      (case its of None \<Rightarrow> True | Some item_schema \<Rightarrow> plain_schema item_schema))"

text \<open>Schema trees whose patterns all compile in the runtime.\<close>

fun patterns_compile :: "js_env \<Rightarrow> schema \<Rightarrow> bool" where
  "patterns_compile env (Schema ty en pat req props mn mx its) =
     ((case pat of None \<Rightarrow> True | Some p \<Rightarrow> RegExp_test env p \<noteq> None) \<and>
      (\<forall>entry \<in> set (case props of None \<Rightarrow> [] | Some ps \<Rightarrow> ps). patterns_compile env (snd entry)) \<and>
      (case its of None \<Rightarrow> True | Some item_schema \<Rightarrow> patterns_compile env item_schema))"

text \<open>
  Whether the tags of a document nest: every \<open><name>\<close> is closed by its \<open></name>\<close>,
  innermost first, and none is left open. The second argument is the tag being read,
  last character first. The responses use tags without attributes only.
\<close>

fun nesting :: "string list \<Rightarrow> string option \<Rightarrow> string \<Rightarrow> bool" where
  "nesting opened None [] = (opened = [])"
| "nesting opened (Some tag) [] = False"
| "nesting opened None (c # cs) =
     (if c = CHR ''<'' then nesting opened (Some []) cs else nesting opened None cs)"
| "nesting opened (Some tag) (c # cs) =
     (if c = CHR ''>'' then
        (case rev tag of
           CHR ''/'' # name \<Rightarrow>
             (case opened of
                [] \<Rightarrow> False
              | innermost # rest \<Rightarrow> innermost = name \<and> nesting rest None cs)
         | name \<Rightarrow> nesting (name # opened) None cs)
      else nesting opened (Some (c # tag)) cs)"

definition well_nested :: "string \<Rightarrow> bool" where
  "well_nested doc = nesting [] None doc"

text \<open>
  A small runtime for the examples. It reads a string as numeric when it is one to
  fifteen decimal digits, knows the pattern \<open>^[0-9]+$\<close>, refuses the pattern \<open>(\<close> as
  every runtime does, lets every other pattern match, and prints the natural numbers
  in decimal (the examples print no other number).
\<close>

definition example_env :: js_env where
  "example_env =
     \<lparr>parseFloat_isNaN = (\<lambda>s. s = [] \<or> hd s \<notin> set ''0123456789''),
      isFinite_string = (\<lambda>s. s \<noteq> [] \<and> length s \<le> 15 \<and> set s \<subseteq> set ''0123456789''),
      RegExp_test =
        (\<lambda>p. if p = ''^[0-9]+$'' then Some (\<lambda>s. s \<noteq> [] \<and> set s \<subseteq> set ''0123456789'')
             else if p = ''('' then None
             else Some (\<lambda>s. True)),
      Number_toString =
        (\<lambda>r. if r = of_nat (nat \<lfloor>r\<rfloor>) then show_nat (nat \<lfloor>r\<rfloor>) else ''NaN''),
      error_message =
        (\<lambda>e. case e of
               TypeError \<Rightarrow> ''TypeError''
             | SyntaxError \<Rightarrow> ''SyntaxError''
             | XmlError \<Rightarrow> ''XmlError'')\<rparr>"

section \<open>Properties of the validator\<close>

lemma type_of_simps [simp]:
  "type_of JUndefined = ''undefined''"
  "type_of JNull = ''object''"
  "type_of (JBool b) = ''boolean''"
  "type_of (JNum r) = ''number''"
  "type_of (JStr s) = ''string''"
  "type_of (JArr xs) = ''array''"
  "type_of (JObj kvs) = ''object''"
  "type_of (JFunction name) = ''function''"
  by (simp_all add: type_of_def)

text \<open>\<open>Object.keys\<close> lists every entry, and keeps the declared order when no key is an array index.\<close>

lemma set_insert_index: "set (insert_index e es) = insert e (set es)"
  by (induction es) auto

lemma set_Object_keys_order [simp]: "set (Object_keys_order entries) = set entries"
proof -
  have "set (foldr insert_index es []) = set es" for es :: "(string \<times> 'a) list"
    by (induction es) (simp_all add: set_insert_index)
  then show ?thesis by (auto simp: Object_keys_order_def)
qed

lemma Object_keys_order_declared:
  "\<forall>entry \<in> set entries. \<not> is_array_index (fst entry) \<Longrightarrow> Object_keys_order entries = entries"
  by (simp add: Object_keys_order_def filter_empty_conv)

text \<open>The body of \<open>validateSchema\<close>, one equation for each way through it.\<close>

lemma validateSchema_mismatch:
  "check_type env data ty path = Some m \<Longrightarrow>
   validateSchema env data (Schema ty en pat req props mn mx its) path = Inr m"
  by (simp add: validateSchema.simps)

lemma validateSchema_value:
  "check_type env data ty path = None \<Longrightarrow> type_of data \<noteq> ''object'' \<Longrightarrow>
   type_of data \<noteq> ''array'' \<Longrightarrow>
   validateSchema env data (Schema ty en pat req props mn mx its) path =
     check_values env data en pat path"
  by (simp add: validateSchema.simps)

lemma validateSchema_object:
  "check_type env data ty path = None \<Longrightarrow> type_of data = ''object'' \<Longrightarrow>
   validateSchema env data (Schema ty en pat req props mn mx its) path =
     (case props of
        None \<Rightarrow> Inr []
      | Some ps \<Rightarrow>
          (case check_required data req path of
             Inl e \<Rightarrow> Inl e
           | Inr missing \<Rightarrow>
               (case concat_results (map (visit_property env data path) (Object_keys_order ps)) of
                  Inl e \<Rightarrow> Inl e
                | Inr propErrors \<Rightarrow> Inr (missing @ propErrors))))"
  by (simp add: validateSchema.simps visit_property_def split: option.splits sum.splits)

lemma validateSchema_array:
  "check_type env (JArr xs) ty path = None \<Longrightarrow>
   validateSchema env (JArr xs) (Schema ty en pat req props mn mx its) path =
     (case its of
        None \<Rightarrow> Inr (check_bounds (length xs) mn mx path)
      | Some item_schema \<Rightarrow>
          (case concat_results (map (visit_item env item_schema path) (enumerate 0 xs)) of
             Inl e \<Rightarrow> Inl e
           | Inr itemErrors \<Rightarrow> Inr (check_bounds (length xs) mn mx path @ itemErrors)))"
  by (simp add: validateSchema.simps visit_item_def split: option.splits sum.splits)

subsection \<open>A type mismatch ends the visit of a node\<close>

text \<open>
  Claim C9. When the schema node declares a type \<open>t\<close> (a non-empty string: the empty one
  is falsy and reads as no declaration), the category of the data is not \<open>t\<close>, and the
  data is not a numeric-looking string under \<open>t = number\<close>, then \<open>validateSchema\<close>
  returns the one message \<open>{path}: Expected type {t} but found {type}\<close> and nothing
  else: no value, required-field or element check adds to it, and nothing is thrown.
  (Data that is a number has category \<open>number\<close>, so under \<open>t = number\<close> the second
  hypothesis already says that the data is not a number.)
\<close>

theorem type_mismatch_single_error:
  assumes "schema_type schema = Some t" and "t \<noteq> []" and "type_of data \<noteq> t"
    and "\<not> (t = ''number'' \<and> type_of data = ''string'' \<and> numeric_string env data)"
  shows "validateSchema env data schema path =
           Inr [path @ '': Expected type '' @ t @ '' but found '' @ type_of data]"
proof -
  obtain ty en pat req props mn mx its where s: "schema = Schema ty en pat req props mn mx its"
    by (cases schema)
  have "js_typeof data = ''number'' \<Longrightarrow> type_of data = ''number''"
    by (cases data) simp_all
  with assms s have "check_type env data ty path =
      Some [path @ '': Expected type '' @ t @ '' but found '' @ type_of data]"
    by (auto simp: check_type_def)
  then show ?thesis by (simp add: s validateSchema_mismatch)
qed

theorem type_mismatch_single_error_witness:
  "validateSchema example_env (JNum 5) (typed ''string'') ''root.Version'' =
     Inr [''root.Version: Expected type string but found number'']"
  using type_mismatch_single_error
          [of "typed ''string''" "''string''" "JNum 5" example_env "''root.Version''"]
  by (simp add: typed_def)

subsection \<open>Numeric strings under a number type\<close>

lemma check_values_prefix:
  assumes "check_values env data en pat path = Inr errs" and "e \<in> set errs"
  shows "\<exists>rest. e = path @ '': Value '' @ rest"
  using assms
  by (auto simp: check_values_def Let_def split: option.splits if_splits)

text \<open>
  Claim C4. For a string \<open>s\<close> with \<open>parseFloat(s)\<close> not NaN and \<open>isFinite(s)\<close>, under a
  schema node of type \<open>number\<close>, the type check lets the string through:
  \<open>validateSchema\<close> gives what the \<open>enum\<close> and \<open>pattern\<close> checks of the node give, and no
  message of the list it returns is a type error at this path.
\<close>

theorem numeric_string_passes_type_check:
  assumes "schema_type schema = Some ''number''"
    and "\<not> parseFloat_isNaN env s" and "isFinite_string env s"
  shows "validateSchema env (JStr s) schema path =
           check_values env (JStr s) (schema_enum schema) (schema_pattern schema) path
         \<and> (\<forall>errs found. validateSchema env (JStr s) schema path = Inr errs \<longrightarrow>
               path @ '': Expected type number but found '' @ found \<notin> set errs)"
proof -
  obtain ty en pat req props mn mx its where s: "schema = Schema ty en pat req props mn mx its"
    by (cases schema)
  from assms s have ct: "check_type env (JStr s) ty path = None"
    by (simp add: check_type_def)
  have eq: "validateSchema env (JStr s) schema path = check_values env (JStr s) en pat path"
    by (simp add: s validateSchema_value ct)
  have "path @ '': Expected type number but found '' @ found \<notin> set errs"
    if "check_values env (JStr s) en pat path = Inr errs" for errs found
  proof
    assume "path @ '': Expected type number but found '' @ found \<in> set errs"
    from check_values_prefix [OF that this]
    show False by simp
  qed
  with eq show ?thesis by (simp add: s)
qed

theorem numeric_string_passes_type_check_witness:
  "validateSchema example_env (JStr ''250'') (typed ''number'') ''root.ValDtls.AssVal'' = Inr []"
  using numeric_string_passes_type_check
          [of "typed ''number''" example_env "''250''" "''root.ValDtls.AssVal''"]
  by (simp add: typed_def example_env_def check_values_def)

subsection \<open>Properties the schema does not declare\<close>

lemma has_property_map_of:
  "has_property k (JObj kvs) = Inr (map_of kvs k \<noteq> None \<or> inherited k \<noteq> None)"
  by (simp add: map_of_eq_None_iff)

text \<open>
  Claim C6. Two objects that agree, in presence and in value, on every name the schema
  node declares (the keys of \<open>properties\<close> and the entries of \<open>required\<close>) get the same
  outcome from \<open>validateSchema\<close>, whatever else they hold: a property that is not
  declared is never looked at.
\<close>

theorem undeclared_properties_ignored:
  assumes "\<forall>k \<in> declared_names schema. map_of kvs1 k = map_of kvs2 k"
  shows "validateSchema env (JObj kvs1) schema path = validateSchema env (JObj kvs2) schema path"
proof -
  obtain ty en pat req props mn mx its where s: "schema = Schema ty en pat req props mn mx its"
    by (cases schema)
  have ct: "check_type env (JObj kvs1) ty path = check_type env (JObj kvs2) ty path"
    by (simp add: check_type_def split: option.splits)
  have rq: "check_required (JObj kvs1) req path = check_required (JObj kvs2) req path"
    if "props \<noteq> None"
  proof (cases req)
    case None
    then show ?thesis by (simp add: check_required_def)
  next
    case (Some rs)
    with assms s have "\<forall>r \<in> set rs. map_of kvs1 r = map_of kvs2 r"
      by (simp add: declared_names_def)
    then have "\<forall>r \<in> set rs. has_property r (JObj kvs1) = has_property r (JObj kvs2)"
      by (simp only: has_property_map_of) simp
    then show ?thesis
      unfolding check_required_def Some option.case
      by (intro arg_cong [where f = concat_results] map_cong refl) simp
  qed
  have pr: "map (visit_property env (JObj kvs1) path) (Object_keys_order ps) =
            map (visit_property env (JObj kvs2) path) (Object_keys_order ps)"
    if "props = Some ps" for ps
  proof (rule map_cong [OF refl])
    fix x assume "x \<in> set (Object_keys_order ps)"
    then have x: "x \<in> set ps" by simp
    obtain k sub where [simp]: "x = (k, sub)" by (cases x)
    from x that s have "k \<in> declared_names schema"
      by (force simp: declared_names_def)
    with assms have "map_of kvs1 k = map_of kvs2 k" by blast
    then show "visit_property env (JObj kvs1) path x = visit_property env (JObj kvs2) path x"
      by (simp add: visit_property_def)
  qed
  show ?thesis
  proof (cases "check_type env (JObj kvs2) ty path")
    case (Some m)
    with ct show ?thesis by (simp add: s validateSchema_mismatch)
  next
    case None
    show ?thesis
    proof (cases props)
      case N: None
      with None ct show ?thesis by (simp add: s validateSchema_object)
    next
      case (Some ps)
      with None ct show ?thesis
        by (simp add: s validateSchema_object rq pr [OF Some] cong: sum.case_cong)
    qed
  qed
qed

theorem undeclared_properties_ignored_witness:
  "validateSchema example_env (JObj [(''a'', JStr ''x''), (''extra'', JNum 1)])
       (object_schema [''a'', ''b''] [(''a'', typed ''number'')]) ''root''
   = validateSchema example_env (JObj [(''other'', JNull), (''a'', JStr ''x'')])
       (object_schema [''a'', ''b''] [(''a'', typed ''number'')]) ''root''"
  using undeclared_properties_ignored
          [of "object_schema [''a'', ''b''] [(''a'', typed ''number'')]"
              "[(''a'', JStr ''x''), (''extra'', JNum 1)]"
              "[(''other'', JNull), (''a'', JStr ''x'')]" example_env "''root''"]
  by (simp add: declared_names_def object_schema_def)

subsection \<open>The validator throws on null\<close>

text \<open>
  Claim C2 says that \<open>validateSchema\<close> returns a list on every input, \<open>null\<close> included.
  \<open>typeof null\<close> is \<open>object\<close>, so \<open>null\<close> passes the type check of an object node, and the
  first \<open>reqField in data\<close> throws a TypeError: on the invoice schema the call on \<open>null\<close>
  returns no list, and neither does the call on an invoice whose \<open>SellerDtls\<close> is
  \<open>null\<close>.
\<close>

theorem validateSchema_null_throws:
  "validateSchema env JNull INVOICE_SCHEMA ''root'' = Inl TypeError
   \<and> validateSchema env (JObj [(''SellerDtls'', JNull)]) INVOICE_SCHEMA ''root'' = Inl TypeError"
  by code_simp

subsection \<open>The order of the errors\<close>

lemma concat_results_map_Inr: "concat_results (map Inr ess) = Inr (concat ess)"
  by (induction ess) simp_all

lemma concat_results_InrD:
  "concat_results rs = Inr es \<Longrightarrow> \<exists>ess. rs = map Inr ess \<and> es = concat ess"
proof (induction rs arbitrary: es)
  case Nil
  then show ?case by simp
next
  case (Cons r rs)
  from Cons.prems obtain xs ys where r: "r = Inr xs" and ys: "concat_results rs = Inr ys"
    and es: "es = xs @ ys"
    by (cases r) (auto split: sum.splits)
  from Cons.IH [OF ys] obtain ess where "rs = map Inr ess" "ys = concat ess" by blast
  with r es have "r # rs = map Inr (xs # ess) \<and> es = concat (xs # ess)" by simp
  then show ?case by (rule exI [of _ "xs # ess"])
qed

lemma concat_results_Inr:
  "concat_results rs = Inr es \<longleftrightarrow> (\<exists>ess. rs = map Inr ess \<and> es = concat ess)"
  using concat_results_InrD [of rs es] concat_results_map_Inr by auto

lemma check_required_object:
  "check_required (JObj kvs) req path =
     Inr (map (\<lambda>r. path @ '': Missing required field '' @ apostrophe @ r @ apostrophe)
            (filter (\<lambda>r. r \<notin> fst ` set kvs \<and> inherited r = None)
               (case req of None \<Rightarrow> [] | Some rs \<Rightarrow> rs)))"
proof (cases req)
  case None
  then show ?thesis by (simp add: check_required_def)
next
  case (Some rs)
  have "concat_results (map (\<lambda>reqField. case has_property reqField (JObj kvs) of
            Inl e \<Rightarrow> Inl e
          | Inr present \<Rightarrow> Inr (if \<not> present then [path @ '': Missing required field '' @ apostrophe @ reqField @ apostrophe] else [])) rs)
      = Inr (map (\<lambda>r. path @ '': Missing required field '' @ apostrophe @ r @ apostrophe)
            (filter (\<lambda>r. r \<notin> fst ` set kvs \<and> inherited r = None) rs))"
    by (induction rs) auto
  with Some show ?thesis by (simp add: check_required_def)
qed

text \<open>The definitions a call on given data and a given schema unfolds to.\<close>

lemmas eval_defs = validateSchema.simps check_type_def check_values_def check_required_def
  check_bounds_def example_env_def typed_def typed_enum_def typed_pattern_def object_schema_def
  array_schema_def show_nat.simps array_join_def apostrophe_def Let_def Object_keys_order_def
  is_array_index_def numeral_value_def digit_value_def inherited_def Object_prototype_def

text \<open>
  Claim C5, as amended. The list \<open>validateSchema\<close> returns is in the order of the
  traversal. On an object node with \<open>properties\<close> it is the missing-field messages, in
  the order of \<open>required\<close>, followed by the lists the declared properties give, in the
  order in which \<open>Object.keys\<close> lists them (\<open>nested\<close> holds one list for each entry, in
  that order): the names that are array indices first, ascending, then the other names
  as declared. On an array node with \<open>items\<close> it is the bound messages (\<open>minItems\<close>, then
  \<open>maxItems\<close>) followed by the lists the elements give, in the order of the indices.
  When no declared name is an array index, the order of the properties is the order
  of their declaration.
\<close>

theorem errors_in_traversal_order:
  assumes "validateSchema env data (Schema ty en pat req props mn mx its) path = Inr errs"
    and "check_type env data ty path = None"
  shows "(data = JObj kvs \<and> props = Some ps \<longrightarrow>
           (\<exists>nested.
              errs = map (\<lambda>r. path @ '': Missing required field '' @ apostrophe @ r @ apostrophe)
                       (filter (\<lambda>r. r \<notin> fst ` set kvs \<and> inherited r = None)
                          (case req of None \<Rightarrow> [] | Some rs \<Rightarrow> rs))
                     @ concat nested
              \<and> map (visit_property env data path) (Object_keys_order ps) = map Inr nested))
       \<and> (data = JArr xs \<and> its = Some item_schema \<longrightarrow>
           (\<exists>nested.
              errs = check_bounds (length xs) mn mx path @ concat nested
              \<and> map (visit_item env item_schema path) (enumerate 0 xs) = map Inr nested))
       \<and> ((\<forall>entry \<in> set ps. \<not> is_array_index (fst entry)) \<longrightarrow> Object_keys_order ps = ps)"
proof (intro conjI impI)
  assume "data = JObj kvs \<and> props = Some ps"
  with assms show "\<exists>nested.
              errs = map (\<lambda>r. path @ '': Missing required field '' @ apostrophe @ r @ apostrophe)
                       (filter (\<lambda>r. r \<notin> fst ` set kvs \<and> inherited r = None)
                          (case req of None \<Rightarrow> [] | Some rs \<Rightarrow> rs))
                     @ concat nested
              \<and> map (visit_property env data path) (Object_keys_order ps) = map Inr nested"
    by (auto simp: validateSchema_object check_required_object concat_results_Inr split: sum.splits)
next
  assume "data = JArr xs \<and> its = Some item_schema"
  with assms show "\<exists>nested.
              errs = check_bounds (length xs) mn mx path @ concat nested
              \<and> map (visit_item env item_schema path) (enumerate 0 xs) = map Inr nested"
    by (auto simp: validateSchema_array concat_results_Inr split: sum.splits)
next
  assume "\<forall>entry \<in> set ps. \<not> is_array_index (fst entry)"
  then show "Object_keys_order ps = ps" by (rule Object_keys_order_declared)
qed

theorem errors_in_traversal_order_witness:
  "\<exists>nested.
     [''root: Missing required field '' @ apostrophe @ ''b'' @ apostrophe,
      ''root.a: Value '' @ apostrophe @ ''x'' @ apostrophe @ '' is not in allowed enum: u'',
      ''root.l: Array has 2 items, minimum is 3'',
      ''root.l[1]: Expected type number but found string'']
     = [''root: Missing required field '' @ apostrophe @ ''b'' @ apostrophe] @ concat nested
     \<and> map (visit_property example_env
              (JObj [(''a'', JStr ''x''), (''l'', JArr [JNum 1, JStr ''yz''])]) ''root'')
           [(''a'', typed_enum ''string'' [''u'']), (''l'', array_schema 3 5 (typed ''number''))]
         = map Inr nested"
proof -
  let ?ps = "[(''a'', typed_enum ''string'' [''u'']), (''l'', array_schema 3 5 (typed ''number''))]"
  have v: "validateSchema example_env
       (JObj [(''a'', JStr ''x''), (''l'', JArr [JNum 1, JStr ''yz''])])
       (Schema (Some ''object'') None None (Some [''a'', ''b'']) (Some ?ps) None None None)
       ''root'' = Inr [''root: Missing required field '' @ apostrophe @ ''b'' @ apostrophe,
                       ''root.a: Value '' @ apostrophe @ ''x'' @ apostrophe @ '' is not in allowed enum: u'',
                       ''root.l: Array has 2 items, minimum is 3'',
                       ''root.l[1]: Expected type number but found string'']"
    by code_simp
  have ct: "check_type example_env (JObj [(''a'', JStr ''x''), (''l'', JArr [JNum 1, JStr ''yz''])])
              (Some ''object'') ''root'' = None"
    by (simp add: check_type_def)
  have names: "\<forall>entry \<in> set ?ps. \<not> is_array_index (fst entry)"
    by (simp add: is_array_index_def)
  have absent: "filter (\<lambda>r. r \<notin> fst ` set [(''a'', JStr ''x''), (''l'', JArr [JNum 1, JStr ''yz''])]
                       \<and> inherited r = None) [''a'', ''b''] = [''b'']"
    by (simp add: inherited_def Object_prototype_def)
  have order: "Object_keys_order ?ps = ?ps"
    using names by (rule Object_keys_order_declared)
  from errors_in_traversal_order [OF v ct,
      of "[(''a'', JStr ''x''), (''l'', JArr [JNum 1, JStr ''yz''])]" ?ps]
  have "\<exists>nested.
     [''root: Missing required field '' @ apostrophe @ ''b'' @ apostrophe,
      ''root.a: Value '' @ apostrophe @ ''x'' @ apostrophe @ '' is not in allowed enum: u'',
      ''root.l: Array has 2 items, minimum is 3'',
      ''root.l[1]: Expected type number but found string'']
     = map (\<lambda>r. ''root'' @ '': Missing required field '' @ apostrophe @ r @ apostrophe)
         (filter (\<lambda>r. r \<notin> fst ` set [(''a'', JStr ''x''), (''l'', JArr [JNum 1, JStr ''yz''])]
                       \<and> inherited r = None) [''a'', ''b''])
       @ concat nested
     \<and> map (visit_property example_env
              (JObj [(''a'', JStr ''x''), (''l'', JArr [JNum 1, JStr ''yz''])]) ''root'')
           (Object_keys_order ?ps)
         = map Inr nested"
    by simp
  then show ?thesis
    unfolding absent order by simp
qed

text \<open>
  Claim C5 as it is written fails: the properties are not visited in the order of
  their declaration when a name is an array index. Under \<open>properties\<close> declared as
  \<open>"2"\<close> and then \<open>"1"\<close>, the error of \<open>root.1\<close> comes before the error of \<open>root.2\<close>, so the
  list is not the lists of the properties in the declared order.
\<close>

theorem declaration_order_counterexample:
  "validateSchema example_env (JObj [(''2'', JStr ''x''), (''1'', JStr ''y'')])
     (Schema (Some ''object'') None None None
        (Some [(''2'', typed ''number''), (''1'', typed ''number'')]) None None None) ''root''
     = Inr [''root.1: Expected type number but found string'',
            ''root.2: Expected type number but found string'']
   \<and> \<not> (\<exists>nested.
          [''root.1: Expected type number but found string'',
           ''root.2: Expected type number but found string''] = concat nested
          \<and> map (visit_property example_env (JObj [(''2'', JStr ''x''), (''1'', JStr ''y'')]) ''root'')
                [(''2'', typed ''number''), (''1'', typed ''number'')]
              = map Inr nested)"
proof -
  let ?D = "JObj [(''2'', JStr ''x''), (''1'', JStr ''y'')]"
  have v: "validateSchema example_env ?D
     (Schema (Some ''object'') None None None
        (Some [(''2'', typed ''number''), (''1'', typed ''number'')]) None None None) ''root''
     = Inr [''root.1: Expected type number but found string'',
            ''root.2: Expected type number but found string'']"
    by code_simp
  have v2: "visit_property example_env ?D ''root'' (''2'', typed ''number'')
              = Inr [''root.2: Expected type number but found string'']"
    by (simp add: visit_property_def eval_defs)
  have v1: "visit_property example_env ?D ''root'' (''1'', typed ''number'')
              = Inr [''root.1: Expected type number but found string'']"
    by (simp add: visit_property_def eval_defs)
  have "\<not> (\<exists>nested.
          [''root.1: Expected type number but found string'',
           ''root.2: Expected type number but found string''] = concat nested
          \<and> map (visit_property example_env ?D ''root'')
                [(''2'', typed ''number''), (''1'', typed ''number'')]
              = map Inr nested)"
  proof
    assume "\<exists>nested.
          [''root.1: Expected type number but found string'',
           ''root.2: Expected type number but found string''] = concat nested
          \<and> map (visit_property example_env ?D ''root'')
                [(''2'', typed ''number''), (''1'', typed ''number'')]
              = map Inr nested"
    then obtain nested where c: "[''root.1: Expected type number but found string'',
           ''root.2: Expected type number but found string''] = concat nested"
      and m: "[Inr [''root.2: Expected type number but found string''],
               Inr [''root.1: Expected type number but found string'']]
              = (map Inr nested :: (js_error + string list) list)"
      by (auto simp: v1 v2)
    from m have "nested = [[''root.2: Expected type number but found string''],
                           [''root.1: Expected type number but found string'']]"
      by (auto simp: Cons_eq_map_conv)
    with c show False by simp
  qed
  with v show ?thesis by (rule conjI)
qed

subsection \<open>The wording of the errors\<close>

lemma map_Inr_member:
  assumes "map f xs = map Inr nested" and "x \<in> set xs"
  shows "\<exists>es. f x = Inr es \<and> set es \<subseteq> set (concat nested)"
proof -
  from assms(2) obtain i where i: "i < length xs" "xs ! i = x"
    by (auto simp: in_set_conv_nth)
  from assms(1) have len: "length nested = length xs"
    by (metis length_map)
  from assms(1) i have "f x = Inr (nested ! i)"
    by (metis len nth_map)
  moreover from i len have "nested ! i \<in> set nested" by simp
  ultimately show ?thesis by auto
qed

lemma visits_errors:
  assumes "visits env data schema path d s p"
    and "validateSchema env data schema path = Inr errs"
  shows "\<exists>errs'. validateSchema env d s p = Inr errs' \<and> set errs' \<subseteq> set errs"
  using assms
proof (induction arbitrary: errs rule: visits.induct)
  case (here data schema path)
  then show ?case by auto
next
  case (property kvs schema path ps propKey sub v d s p)
  obtain ty en pat req props mn mx its where sc: "schema = Schema ty en pat req props mn mx its"
    by (cases schema)
  from property.hyps sc have ct: "check_type env (JObj kvs) ty path = None" and ps: "props = Some ps"
    by simp_all
  from property.prems obtain missing propErrors where
    pe: "concat_results (map (visit_property env (JObj kvs) path) (Object_keys_order ps)) = Inr propErrors"
    and errs: "errs = missing @ propErrors"
    by (auto simp: sc ps validateSchema_object [OF ct] split: sum.splits)
  from pe obtain nested where
    n: "map (visit_property env (JObj kvs) path) (Object_keys_order ps) = map Inr nested"
    and pn: "propErrors = concat nested"
    by (auto simp: concat_results_Inr)
  from property.hyps(3) have "(propKey, sub) \<in> set (Object_keys_order ps)"
    by simp
  from map_Inr_member [OF n this] obtain es where
    es: "visit_property env (JObj kvs) path (propKey, sub) = Inr es" "set es \<subseteq> set (concat nested)"
    by blast
  from es(1) property.hyps have "validateSchema env v sub (path @ ''.'' @ propKey) = Inr es"
    by (simp add: visit_property_def)
  from property.IH [OF this] es(2) errs pn show ?case by auto
next
  case (item xs schema path item_schema index d s p)
  obtain ty en pat req props mn mx its where sc: "schema = Schema ty en pat req props mn mx its"
    by (cases schema)
  from item.hyps sc have ct: "check_type env (JArr xs) ty path = None" and its: "its = Some item_schema"
    by simp_all
  from item.prems obtain itemErrors where
    ie: "concat_results (map (visit_item env item_schema path) (enumerate 0 xs)) = Inr itemErrors"
    and errs: "errs = check_bounds (length xs) mn mx path @ itemErrors"
    by (auto simp: sc its validateSchema_array [OF ct] split: sum.splits)
  from ie obtain nested where
    n: "map (visit_item env item_schema path) (enumerate 0 xs) = map Inr nested"
    and pn: "itemErrors = concat nested"
    by (auto simp: concat_results_Inr)
  from item.hyps have "(index, xs ! index) \<in> set (enumerate 0 xs)"
    by (simp add: in_set_enumerate_eq)
  from map_Inr_member [OF n this] obtain es where
    es: "visit_item env item_schema path (index, xs ! index) = Inr es" "set es \<subseteq> set (concat nested)"
    by blast
  from es(1) have "validateSchema env (xs ! index) item_schema (path @ ''['' @ show_nat index @ '']'') = Inr es"
    by (simp add: visit_item_def)
  from item.IH [OF this] es(2) errs pn show ?case by auto
qed

lemma node_messages:
  assumes v: "validateSchema env d s p = Inr errs" and ct: "check_type env d (schema_type s) p = None"
  shows "(\<forall>kvs ps rs r. d = JObj kvs \<and> schema_properties s = Some ps \<and> schema_required s = Some rs
             \<and> r \<in> set rs \<and> r \<notin> fst ` set kvs \<and> inherited r = None \<longrightarrow>
           p @ '': Missing required field '' @ apostrophe @ r @ apostrophe \<in> set errs)"
    and "(\<forall>vs. type_of d \<noteq> ''object'' \<and> type_of d \<noteq> ''array'' \<and> schema_enum s = Some vs
             \<and> \<not> array_includes vs d \<longrightarrow>
           p @ '': Value '' @ apostrophe @ to_string env d @ apostrophe @
             '' is not in allowed enum: '' @ array_join env '', '' vs \<in> set errs)"
    and "(\<forall>str pt test. d = JStr str \<and> schema_pattern s = Some pt \<and> pt \<noteq> []
             \<and> RegExp_test env pt = Some test \<and> \<not> test str \<longrightarrow>
           p @ '': Value '' @ apostrophe @ str @ apostrophe @ '' does not match pattern '' @ pt
             \<in> set errs)"
    and "(\<forall>xs m. d = JArr xs \<and> schema_minItems s = Some m \<and> length xs < m \<longrightarrow>
           p @ '': Array has '' @ show_nat (length xs) @ '' items, minimum is '' @ show_nat m
             \<in> set errs)"
proof -
  obtain ty en pat req props mn mx its where sc: "s = Schema ty en pat req props mn mx its"
    by (cases s)
  from ct sc have ct': "check_type env d ty p = None" by simp
  show "(\<forall>kvs ps rs r. d = JObj kvs \<and> schema_properties s = Some ps \<and> schema_required s = Some rs
             \<and> r \<in> set rs \<and> r \<notin> fst ` set kvs \<and> inherited r = None \<longrightarrow>
           p @ '': Missing required field '' @ apostrophe @ r @ apostrophe \<in> set errs)"
    using v ct'
    by (auto simp: sc validateSchema_object check_required_object split: sum.splits)
  show "(\<forall>vs. type_of d \<noteq> ''object'' \<and> type_of d \<noteq> ''array'' \<and> schema_enum s = Some vs
             \<and> \<not> array_includes vs d \<longrightarrow>
           p @ '': Value '' @ apostrophe @ to_string env d @ apostrophe @
             '' is not in allowed enum: '' @ array_join env '', '' vs \<in> set errs)"
    using v ct'
    by (auto simp: sc validateSchema_value check_values_def Let_def split: option.splits if_splits)
  show "(\<forall>str pt test. d = JStr str \<and> schema_pattern s = Some pt \<and> pt \<noteq> []
             \<and> RegExp_test env pt = Some test \<and> \<not> test str \<longrightarrow>
           p @ '': Value '' @ apostrophe @ str @ apostrophe @ '' does not match pattern '' @ pt
             \<in> set errs)"
    using v ct'
    by (auto simp: sc validateSchema_value check_values_def Let_def split: option.splits if_splits)
  show "(\<forall>xs m. d = JArr xs \<and> schema_minItems s = Some m \<and> length xs < m \<longrightarrow>
           p @ '': Array has '' @ show_nat (length xs) @ '' items, minimum is '' @ show_nat m
             \<in> set errs)"
    using v ct'
    by (auto simp: sc validateSchema_array check_bounds_def split: option.splits sum.splits)
qed

text \<open>
  Claim C3. Let \<open>validateSchema\<close> return \<open>errs\<close>, and let it visit a node \<open>d\<close> under the
  schema node \<open>s\<close> and the path \<open>p\<close> (the path of the call, extended by \<open>.key\<close> for a
  property and by \<open>[index]\<close> for an element), with the type check of the node passed.
  Then a required field that \<open>d\<close> neither has nor inherits (the test \<open>reqField in data\<close>
  fails), a value of \<open>d\<close> outside \<open>enum\<close>, a string \<open>d\<close> that does not match \<open>pattern\<close>, and
  an array \<open>d\<close> shorter than \<open>minItems\<close> each put into \<open>errs\<close> the message
  \<open>{p}: Missing required field '{name}'\<close>,
  \<open>{p}: Value '{v}' is not in allowed enum: {list}\<close> (the values joined by comma and space),
  \<open>{p}: Value '{v}' does not match pattern {pattern}\<close>,
  \<open>{p}: Array has {n} items, minimum is {m}\<close>.
\<close>

theorem error_messages_exact:
  assumes "visits env data schema path d s p"
    and "validateSchema env data schema path = Inr errs"
    and "check_type env d (schema_type s) p = None"
  shows "(\<forall>kvs ps rs r. d = JObj kvs \<and> schema_properties s = Some ps \<and> schema_required s = Some rs
             \<and> r \<in> set rs \<and> r \<notin> fst ` set kvs \<and> inherited r = None \<longrightarrow>
           p @ '': Missing required field '' @ apostrophe @ r @ apostrophe \<in> set errs)
       \<and> (\<forall>vs. type_of d \<noteq> ''object'' \<and> type_of d \<noteq> ''array'' \<and> schema_enum s = Some vs
             \<and> \<not> array_includes vs d \<longrightarrow>
           p @ '': Value '' @ apostrophe @ to_string env d @ apostrophe @
             '' is not in allowed enum: '' @ array_join env '', '' vs \<in> set errs)
       \<and> (\<forall>str pt test. d = JStr str \<and> schema_pattern s = Some pt \<and> pt \<noteq> []
             \<and> RegExp_test env pt = Some test \<and> \<not> test str \<longrightarrow>
           p @ '': Value '' @ apostrophe @ str @ apostrophe @ '' does not match pattern '' @ pt
             \<in> set errs)
       \<and> (\<forall>xs m. d = JArr xs \<and> schema_minItems s = Some m \<and> length xs < m \<longrightarrow>
           p @ '': Array has '' @ show_nat (length xs) @ '' items, minimum is '' @ show_nat m
             \<in> set errs)"
proof -
  from visits_errors [OF assms(1,2)] obtain errs' where
    e: "validateSchema env d s p = Inr errs'" "set errs' \<subseteq> set errs"
    by blast
  from node_messages [OF e(1) assms(3)] e(2) show ?thesis
    by (intro conjI) blast+
qed

theorem error_messages_exact_witness:
  "\<exists>errs.
     validateSchema example_env
       (JObj [(''seller'', JObj []), (''ver'', JStr ''2''), (''gst'', JStr ''x''), (''items'', JArr [])])
       (object_schema []
          [(''seller'', object_schema [''Gstin''] []),
           (''ver'', typed_enum ''string'' [''1.1'']),
           (''gst'', typed_pattern ''string'' ''^[0-9]+$''),
           (''items'', array_schema 1 5 (typed ''string''))])
       ''root'' = Inr errs
     \<and> ''root.seller: Missing required field '' @ apostrophe @ ''Gstin'' @ apostrophe \<in> set errs
     \<and> ''root.ver: Value '' @ apostrophe @ ''2'' @ apostrophe @ '' is not in allowed enum: 1.1'' \<in> set errs
     \<and> ''root.gst: Value '' @ apostrophe @ ''x'' @ apostrophe @ '' does not match pattern ^[0-9]+$'' \<in> set errs
     \<and> ''root.items: Array has 0 items, minimum is 1'' \<in> set errs"
proof -
  let ?D = "JObj [(''seller'', JObj []), (''ver'', JStr ''2''), (''gst'', JStr ''x''), (''items'', JArr [])]"
  let ?ps = "[(''seller'', object_schema [''Gstin''] []),
           (''ver'', typed_enum ''string'' [''1.1'']),
           (''gst'', typed_pattern ''string'' ''^[0-9]+$''),
           (''items'', array_schema 1 5 (typed ''string''))]"
  let ?S = "object_schema [] ?ps"
  obtain errs where v: "validateSchema example_env ?D ?S ''root'' = Inr errs"
    by (simp add: eval_defs)
  have child: "visits example_env ?D ?S ''root'' d s (''root'' @ ''.'' @ k)"
    if "(k, s) \<in> set ?ps" and "get_property ?D k = Inr d"
      and "d \<noteq> JUndefined" for k s d
    by (rule visits.property [OF _ _ that visits.here])
       (simp_all add: object_schema_def check_type_def)
  have n1: "visits example_env ?D ?S ''root'' (JObj []) (object_schema [''Gstin''] []) (''root'' @ ''.'' @ ''seller'')"
    by (rule child) simp_all
  have n2: "visits example_env ?D ?S ''root'' (JStr ''2'') (typed_enum ''string'' [''1.1'']) (''root'' @ ''.'' @ ''ver'')"
    by (rule child) simp_all
  have n3: "visits example_env ?D ?S ''root'' (JStr ''x'') (typed_pattern ''string'' ''^[0-9]+$'') (''root'' @ ''.'' @ ''gst'')"
    by (rule child) simp_all
  have n4: "visits example_env ?D ?S ''root'' (JArr []) (array_schema 1 5 (typed ''string'')) (''root'' @ ''.'' @ ''items'')"
    by (rule child) simp_all
  from error_messages_exact [OF n1 v]
  have m1: "''root.seller: Missing required field '' @ apostrophe @ ''Gstin'' @ apostrophe \<in> set errs"
    by (simp add: object_schema_def check_type_def inherited_def Object_prototype_def)
  from error_messages_exact [OF n2 v]
  have m2: "''root.ver: Value '' @ apostrophe @ ''2'' @ apostrophe @ '' is not in allowed enum: 1.1'' \<in> set errs"
    by (simp add: typed_enum_def check_type_def array_join_def)
  from error_messages_exact [OF n3 v]
  have m3: "''root.gst: Value '' @ apostrophe @ ''x'' @ apostrophe @ '' does not match pattern ^[0-9]+$'' \<in> set errs"
    by (simp add: typed_pattern_def check_type_def example_env_def)
  from error_messages_exact [OF n4 v]
  have m4: "''root.items: Array has 0 items, minimum is 1'' \<in> set errs"
    by (simp add: array_schema_def check_type_def show_nat.simps)
  from v m1 m2 m3 m4 show ?thesis by blast
qed

subsection \<open>An empty list and validity\<close>



lemma concat_results_thrown:
  "rs \<noteq> [] \<Longrightarrow> \<forall>r \<in> set rs. r = Inl e \<Longrightarrow> concat_results rs = Inl e"
  by (cases rs) auto






lemma append_result_thrown:
  "(case r of Inl e \<Rightarrow> Inl e | Inr ys \<Rightarrow> Inr (xs @ ys)) = Inl e \<longleftrightarrow> r = Inl e"
  by (cases r) auto

text \<open>A name that is not inherited is read from the own entries.\<close>

lemma visit_property_object:
  "inherited k = None \<Longrightarrow>
   visit_property env (JObj kvs) path (k, sub) =
     (case map_of kvs k of
        None \<Rightarrow> Inr []
      | Some v \<Rightarrow> if v \<noteq> JUndefined then validateSchema env v sub (path @ ''.'' @ k) else Inr [])"
  by (simp add: visit_property_def split: option.splits)



lemma Object_keys_order_Nil [simp]: "Object_keys_order entries = [] \<longleftrightarrow> entries = []"
  using set_Object_keys_order [of entries] by (metis set_empty)


text \<open>The invoice schema is such a tree.\<close>

lemma INVOICE_SCHEMA_plain: "plain_schema INVOICE_SCHEMA"
  by (simp add: INVOICE_SCHEMA_def ItemList_schema_def Item_schema_def object_schema_def
      array_schema_def typed_def typed_enum_def typed_pattern_def inherited_def
      Object_prototype_def)



subsection \<open>Where the validator returns\<close>

text \<open>
  Apart from \<open>null\<close> (see claim C2) only a pattern that does not compile makes
  \<open>validateSchema\<close> throw: on data without \<open>null\<close>, under a schema whose declared names
  are not inherited ones and whose patterns compile, it returns a list.
\<close>

lemma concat_results_returns:
  "(\<forall>r \<in> set rs. \<exists>es. r = Inr es) \<Longrightarrow> \<exists>es. concat_results rs = Inr es"
proof (induction rs)
  case Nil
  then show ?case by simp
next
  case (Cons r rs)
  then obtain xs ys where "r = Inr xs" "concat_results rs = Inr ys" by auto
  then show ?case by simp
qed

lemma check_values_returns:
  "(case pat of None \<Rightarrow> True | Some p \<Rightarrow> RegExp_test env p \<noteq> None) \<Longrightarrow>
   \<exists>errs. check_values env data en pat path = Inr errs"
  by (auto simp: check_values_def Let_def split: option.splits)

lemma validateSchema_returns:
  assumes "null_free data" and "patterns_compile env schema" and "plain_schema schema"
  shows "\<exists>errs. validateSchema env data schema path = Inr errs"
  using assms
proof (induction env data schema path rule: validateSchema.induct)
  case (1 env data ty en pat req props mn mx its path)
  show ?case
  proof (cases "check_type env data ty path")
    case (Some m)
    then show ?thesis by (simp add: validateSchema_mismatch)
  next
    case None
    show ?thesis
    proof (cases data)
      case JNull
      with "1.prems" show ?thesis by simp
    next
      case (JObj kvs)
      show ?thesis
      proof (cases props)
        case N: None
        with None JObj show ?thesis by (simp add: validateSchema_object)
      next
        case (Some ps)
        have "\<exists>es. visit_property env data path entry = Inr es"
          if entry: "entry \<in> set (Object_keys_order ps)" for entry
        proof -
          obtain k sub where e: "entry = (k, sub)" by (cases entry)
          from entry have entry': "entry \<in> set ps" by simp
          with "1.prems" Some e have own: "inherited k = None" by force
          show ?thesis
          proof (cases "map_of kvs k")
            case N: None
            with JObj e own show ?thesis by (simp add: visit_property_object)
          next
            case S: (Some v)
            show ?thesis
            proof (cases "v = JUndefined")
              case True
              with S JObj e own show ?thesis by (simp add: visit_property_object)
            next
              case False
              from S have "(k, v) \<in> set kvs" by (rule map_of_SomeD)
              with "1.prems" JObj have nf: "null_free v" by force
              from "1.prems" Some entry' e have pc: "patterns_compile env sub" by force
              from "1.prems" Some entry' e have pl: "plain_schema sub" by force
              have "\<exists>errs. validateSchema env v sub (path @ ''.'' @ k) = Inr errs"
                by (rule "1.IH"(1) [OF None _ Some _ _ entry _ _ False nf pc pl])
                   (simp_all add: JObj S e own check_required_object)
              with S False JObj e own show ?thesis by (simp add: visit_property_object)
            qed
          qed
        qed
        then have "\<exists>es. concat_results (map (visit_property env data path) (Object_keys_order ps)) = Inr es"
          by (intro concat_results_returns) auto
        with None JObj Some show ?thesis
          by (auto simp: validateSchema_object check_required_object)
      qed
    next
      case (JArr xs)
      show ?thesis
      proof (cases its)
        case N: None
        with None JArr show ?thesis by (simp add: validateSchema_array)
      next
        case (Some item_schema)
        have "\<exists>es. visit_item env item_schema path entry = Inr es"
          if entry: "entry \<in> set (enumerate 0 (elements data))" for entry
        proof -
          obtain index x where e: "entry = (index, x)" by (cases entry)
          from entry e JArr have "x \<in> set xs" by (auto simp: in_set_enumerate_eq)
          with "1.prems" JArr have nf: "null_free x" by simp
          from "1.prems" Some have pc: "patterns_compile env item_schema" by simp
          from "1.prems" Some have pl: "plain_schema item_schema" by simp
          have "\<exists>errs. validateSchema env x item_schema (path @ ''['' @ show_nat index @ '']'') = Inr errs"
            by (rule "1.IH"(2) [OF None _ _ _ Some entry _ nf pc pl, of "[]"])
               (simp_all add: JArr e split: option.splits)
          with e show ?thesis by (simp add: visit_item_def)
        qed
        then have "\<exists>es. concat_results (map (visit_item env item_schema path) (enumerate 0 xs)) = Inr es"
          using JArr by (intro concat_results_returns) auto
        with None JArr Some show ?thesis
          by (auto simp: validateSchema_array)
      qed
    qed (use None "1.prems" in \<open>simp_all add: validateSchema_value check_values_returns\<close>)
  qed
qed

section \<open>Properties of the XML validation endpoint\<close>

subsection \<open>One item becomes an array\<close>

lemma map_of_set_entry: "map_of (set_entry kvs k v) k = Some v"
  by (induction kvs k v rule: set_entry.induct) simp_all

lemma concat_results_single: "concat_results [r] = r"
  by (cases r) simp_all

text \<open>An array of one element under the schema of \<open>ItemList\<close>: no bound error.\<close>

lemma ItemList_schema_single:
  "validateSchema env (JArr [item]) ItemList_schema path =
     validateSchema env item Item_schema (path @ ''[0]'')"
proof -
  have ct: "check_type env (JArr [item]) (Some ''array'') path = None"
    by (simp add: check_type_def)
  have "check_bounds (length [item]) (Some 1) (Some 1000) path = []"
    by (simp add: check_bounds_def)
  then show ?thesis
    unfolding ItemList_schema_def array_schema_def
    by (simp add: validateSchema_array [OF ct] visit_item_def concat_results_single
        show_nat.simps split: sum.splits)
qed

text \<open>
  Claim C10. Let the body be a non-empty string that \<open>xml2js\<close> parses to an object with
  a truthy \<open>Invoice\<close>, and let the normalised invoice be an object whose \<open>ItemList\<close> is
  an object with a truthy \<open>Item\<close>. Then the handler calls \<open>validateSchema\<close> on the
  normalised invoice with \<open>ItemList\<close> replaced: by \<open>Item\<close> itself when that is an array,
  by the one-element array of \<open>Item\<close> otherwise; and its answer is made from the result
  of that call. Reading \<open>ItemList\<close> from the data of the call gives that array. When
  \<open>Item\<close> was a single value, the visit of \<open>validateSchema\<close> to the property \<open>ItemList\<close>
  of that data gives the errors of the one item at \<open>root.ItemList[0]\<close> and no bound
  error: the array is within the \<open>minItems\<close> of 1.
\<close>

theorem ItemList_becomes_array:
  assumes "payload \<noteq> []" and "xml2js payload = Inr result"
    and "map_of result ''Invoice'' = Some invoice" and "truthy invoice"
    and "normalize invoice = JObj kvs"
    and "map_of kvs ''ItemList'' = Some (JObj entries)"
    and "map_of entries ''Item'' = Some item" and "truthy item"
  shows "validate_payload env xml2js payload =
           (case validateSchema env
                   (JObj (set_entry kvs ''ItemList'' (if isArray item then item else JArr [item])))
                   INVOICE_SCHEMA ''root'' of
              Inl e \<Rightarrow> Inl e
            | Inr errors \<Rightarrow>
                if length errors > 0 then Inr (send 200 (failed_body errors))
                else Inr (send 200 valid_body))
       \<and> post_validate env xml2js (JStr payload) =
           (case validateSchema env
                   (JObj (set_entry kvs ''ItemList'' (if isArray item then item else JArr [item])))
                   INVOICE_SCHEMA ''root'' of
              Inl e \<Rightarrow> send 400 (error_body 8 (''Invalid XML Format: '' @ error_message env e))
            | Inr errors \<Rightarrow>
                if length errors > 0 then send 200 (failed_body errors)
                else send 200 valid_body)
       \<and> get_property
             (JObj (set_entry kvs ''ItemList'' (if isArray item then item else JArr [item])))
             ''ItemList''
           = Inr (if isArray item then item else JArr [item])
       \<and> map_of (case schema_properties INVOICE_SCHEMA of None \<Rightarrow> [] | Some ps \<Rightarrow> ps) ''ItemList''
           = Some ItemList_schema
       \<and> (\<not> isArray item \<longrightarrow>
            visit_property env (JObj (set_entry kvs ''ItemList'' (JArr [item]))) ''root''
              (''ItemList'', ItemList_schema)
            = validateSchema env item Item_schema ''root.ItemList[0]'')"
proof -
  let ?array = "if isArray item then item else JArr [item]"
  let ?cleanData = "JObj (set_entry kvs ''ItemList'' ?array)"
  from assms(6-8) have wrap: "wrap_ItemList (JObj kvs) = Inr ?cleanData"
    by (simp add: wrap_ItemList_def)
  with assms(2-5) have payload: "validate_payload env xml2js payload =
           (case validateSchema env ?cleanData INVOICE_SCHEMA ''root'' of
              Inl e \<Rightarrow> Inl e
            | Inr errors \<Rightarrow>
                if length errors > 0 then Inr (send 200 (failed_body errors))
                else Inr (send 200 valid_body))"
    by (simp add: validate_payload_def)
  have handler: "post_validate env xml2js (JStr payload) =
           (case validateSchema env ?cleanData INVOICE_SCHEMA ''root'' of
              Inl e \<Rightarrow> send 400 (error_body 8 (''Invalid XML Format: '' @ error_message env e))
            | Inr errors \<Rightarrow>
                if length errors > 0 then send 200 (failed_body errors)
                else send 200 valid_body)"
  proof -
    from assms(1) have "post_validate env xml2js (JStr payload) =
           (case validate_payload env xml2js payload of
              Inr res \<Rightarrow> res
            | Inl error \<Rightarrow>
                send 400 (error_body 8 (''Invalid XML Format: '' @ error_message env error)))"
      by (simp add: post_validate_def)
    then show ?thesis
      unfolding payload
      by (cases "validateSchema env ?cleanData INVOICE_SCHEMA ''root''") simp_all
  qed
  have read: "get_property ?cleanData ''ItemList'' = Inr ?array"
    by (simp add: map_of_set_entry)
  have declared: "map_of (case schema_properties INVOICE_SCHEMA of None \<Rightarrow> [] | Some ps \<Rightarrow> ps)
                    ''ItemList'' = Some ItemList_schema"
    by (simp add: INVOICE_SCHEMA_def object_schema_def)
  have visit: "visit_property env (JObj (set_entry kvs ''ItemList'' (JArr [item]))) ''root''
                 (''ItemList'', ItemList_schema)
               = validateSchema env item Item_schema ''root.ItemList[0]''"
    using ItemList_schema_single [of env item "''root.ItemList''"]
    by (simp add: visit_property_def map_of_set_entry)
  from payload handler read declared visit show ?thesis
    by blast
qed

theorem ItemList_becomes_array_witness:
  "validate_payload example_env
     (\<lambda>xml. Inr [(''Invoice'', JObj [(''Version'', JStr ''1.1''),
                                     (''ItemList'', JObj [(''Item'', JObj [(''SlNo'', JStr ''1'')])])])])
     ''<Invoice><Version>1.1</Version><ItemList><Item><SlNo>1</SlNo></Item></ItemList></Invoice>''
   = (case validateSchema example_env
             (JObj [(''Version'', JStr ''1.1''), (''ItemList'', JArr [JObj [(''SlNo'', JStr ''1'')]])])
             INVOICE_SCHEMA ''root'' of
        Inl e \<Rightarrow> Inl e
      | Inr errors \<Rightarrow>
          if length errors > 0 then Inr (send 200 (failed_body errors))
          else Inr (send 200 valid_body))
   \<and> visit_property example_env
       (JObj [(''Version'', JStr ''1.1''), (''ItemList'', JArr [JObj [(''SlNo'', JStr ''1'')]])])
       ''root'' (''ItemList'', ItemList_schema)
     = validateSchema example_env (JObj [(''SlNo'', JStr ''1'')]) Item_schema ''root.ItemList[0]''"
proof -
  let ?item = "JObj [(''SlNo'', JStr ''1'')]"
  let ?entries = "[(''Item'', ?item)]"
  let ?kvs = "[(''Version'', JStr ''1.1''), (''ItemList'', JObj ?entries)]"
  let ?result = "[(''Invoice'', JObj ?kvs)]"
  let ?xml2js = "\<lambda>xml :: string. Inr ?result :: js_error + (string \<times> jsval) list"
  let ?payload =
    "''<Invoice><Version>1.1</Version><ItemList><Item><SlNo>1</SlNo></Item></ItemList></Invoice>''"
  have payload: "?payload \<noteq> []"
    by simp
  have parsed: "?xml2js ?payload = Inr ?result"
    by simp
  have invoice: "map_of ?result ''Invoice'' = Some (JObj ?kvs)"
    by simp
  have truthy: "truthy (JObj ?kvs)"
    by simp
  have clean: "normalize (JObj ?kvs) = JObj ?kvs"
    by simp
  have itemList: "map_of ?kvs ''ItemList'' = Some (JObj ?entries)"
    by simp
  have item: "map_of ?entries ''Item'' = Some ?item"
    by simp
  have truthy_item: "truthy ?item"
    by simp
  from ItemList_becomes_array
         [where ?xml2js = ?xml2js and env = example_env,
          OF payload parsed invoice truthy clean itemList item truthy_item]
  show ?thesis by simp
qed

subsection \<open>A payload that fails validation is answered with 200\<close>

lemma invoice_empty_object:
  "validateSchema env (JObj []) INVOICE_SCHEMA ''root'' =
     Inr (map (\<lambda>r. ''root: Missing required field '' @ apostrophe @ r @ apostrophe)
            [''Version'', ''TranDtls'', ''DocDtls'', ''SellerDtls'', ''BuyerDtls'', ''ItemList'', ''ValDtls''])"
  by code_simp

lemma failed_body_Valid_false: "sublist ''<Valid>false</Valid>'' (failed_body errors)"
proof -
  have "failed_body errors =
          (newline @ text_line 17 ''<ValidationResponse>'' @ replicate 20 CHR '' '') @
          ''<Valid>false</Valid>'' @
          (newline @ text_line 20 ''<Message>Validation Failed</Message>'' @
           text_line 20 ''<Errors>'' @
           text_line 24 (concat (map (\<lambda>err. ''<Error>'' @ err @ ''</Error>'') errors)) @
           text_line 17 ''</ValidationResponse>'' @ replicate 13 CHR '' '')"
    by (simp add: failed_body_def text_line_def Let_def)
  then show ?thesis
    unfolding sublist_def by blast
qed

text \<open>
  Claim C7. When the body is a non-empty string that parses to an object with a truthy
  \<open>Invoice\<close>, and \<open>validateSchema\<close> returns a non-empty list for the prepared data, the
  handler answers with status 200 and the failure body, which holds
  \<open><Valid>false</Valid>\<close>.
\<close>

theorem schema_invalid_xml_status_200:
  assumes "payload \<noteq> []" and "xml2js payload = Inr result"
    and "map_of result ''Invoice'' = Some invoice" and "truthy invoice"
    and "wrap_ItemList (normalize invoice) = Inr cleanData"
    and "validateSchema env cleanData INVOICE_SCHEMA ''root'' = Inr errors" and "errors \<noteq> []"
  shows "post_validate env xml2js (JStr payload) = send 200 (failed_body errors)
       \<and> status (post_validate env xml2js (JStr payload)) = 200
       \<and> sublist ''<Valid>false</Valid>'' (body (post_validate env xml2js (JStr payload)))"
proof -
  from assms have "validate_payload env xml2js payload = Inr (send 200 (failed_body errors))"
    by (simp add: validate_payload_def)
  with assms(1) have "post_validate env xml2js (JStr payload) = send 200 (failed_body errors)"
    by (simp add: post_validate_def)
  then show ?thesis
    by (simp add: send_def failed_body_Valid_false)
qed

theorem schema_invalid_xml_status_200_witness:
  "status (post_validate example_env (\<lambda>xml. Inr [(''Invoice'', JObj [])])
             (JStr ''<Invoice></Invoice>'')) = 200
   \<and> sublist ''<Valid>false</Valid>''
        (body (post_validate example_env (\<lambda>xml. Inr [(''Invoice'', JObj [])])
                 (JStr ''<Invoice></Invoice>'')))"
proof -
  let ?xml2js = "\<lambda>xml :: string. Inr [(''Invoice'', JObj [])] :: js_error + (string \<times> jsval) list"
  have payload: "''<Invoice></Invoice>'' \<noteq> []"
    by simp
  have parsed: "?xml2js ''<Invoice></Invoice>'' = Inr [(''Invoice'', JObj [])]"
    by simp
  have invoice: "map_of [(''Invoice'', JObj [])] ''Invoice'' = Some (JObj [])"
    by simp
  have truthy: "truthy (JObj [])"
    by simp
  have clean: "wrap_ItemList (normalize (JObj [])) = Inr (JObj [])"
    by (simp add: wrap_ItemList_def inherited_def Object_prototype_def)
  have errors: "map (\<lambda>r. ''root: Missing required field '' @ apostrophe @ r @ apostrophe)
            [''Version'', ''TranDtls'', ''DocDtls'', ''SellerDtls'', ''BuyerDtls'', ''ItemList'',
             ''ValDtls''] \<noteq> []"
    by simp
  from schema_invalid_xml_status_200
         [where ?xml2js = ?xml2js, OF payload parsed invoice truthy clean invoice_empty_object errors]
  show ?thesis by (rule conjunct2)
qed

subsection \<open>The failure body leaves a tag open\<close>

lemma nesting_spaces [simp]:
  "nesting opened None (replicate n CHR '' '' @ rest) = nesting opened None rest"
  by (induction n) simp_all

lemma nesting_spaces_end [simp]:
  "nesting opened None (replicate n CHR '' '') = nesting opened None []"
  using nesting_spaces [of opened n "[]"] by simp

text \<open>The other bodies of the handler nest their tags.\<close>

lemma valid_body_well_nested: "well_nested valid_body"
  by (simp add: well_nested_def valid_body_def text_line_def newline_def)

lemma error_body_well_nested: "well_nested (error_body 12 ''Empty or invalid XML payload'')"
  by (simp add: well_nested_def error_body_def text_line_def newline_def)

text \<open>
  Claim C8 says that every body of the endpoint is a well-formed XML document. The
  failure body opens \<open><Errors>\<close> and never closes it (the bodies sent with status 400
  do close it): for the payload \<open><Invoice></Invoice>\<close>, which \<open>xml2js\<close> reads as an
  empty \<open>Invoice\<close> object, the tags of the response do not nest.
\<close>

theorem failed_body_not_well_nested:
  "\<not> well_nested
       (body (post_validate env (\<lambda>xml. Inr [(''Invoice'', JObj [])])
                (JStr ''<Invoice></Invoice>'')))"
  by code_simp

theorem failed_body_not_well_nested_witness:
  "\<not> well_nested
       (body (post_validate example_env (\<lambda>xml. Inr [(''Invoice'', JObj [])])
                (JStr ''<Invoice></Invoice>'')))"
  using failed_body_not_well_nested [of example_env] .

end
